theory Spec2Isabelle
  imports Main
begin

section \<open>Values, field descriptors and construction parameters\<close>

text \<open>
  The repository is a browser test application. Its two custom elements are
  \<^verbatim>\<open>ControlElement\<close> (controlElement.js) and \<^verbatim>\<open>ControlGroupElement\<close>
  (controlGroupElement.js). Both are embedded here function by function.

  JavaScript values that reach the modelled code are \<^verbatim>\<open>undefined\<close>, \<^verbatim>\<open>null\<close>,
  booleans, strings and (as a result of \<^verbatim>\<open>GetFieldValue\<close>) the live options collection
  of a select element, a sequence of options each with its \<^verbatim>\<open>value\<close> and its
  \<^verbatim>\<open>selected\<close> flag. Numbers are left out: no modelled statement depends on them.
\<close>

datatype jsval =
    JUndefined
  | JNull
  | JBool bool
  | JStr string
  | JOptions "(string \<times> bool) list"

text \<open>ToBoolean and ToString of the language, on these values.\<close>

fun truthy :: "jsval \<Rightarrow> bool" where
  "truthy JUndefined = False"
| "truthy JNull = False"
| "truthy (JBool b) = b"
| "truthy (JStr s) = (s \<noteq> [])"
| "truthy (JOptions os) = True"

fun to_string :: "jsval \<Rightarrow> string" where
  "to_string JUndefined = ''undefined''"
| "to_string JNull = ''null''"
| "to_string (JBool b) = (if b then ''true'' else ''false'')"
| "to_string (JStr s) = s"
| "to_string (JOptions os) = ''[object HTMLOptionsCollection]''"

text \<open>
  A field descriptor, as the object literals of the callers write it. A property that
  the code compares with \<^verbatim>\<open>undefined\<close> is an option; \<^verbatim>\<open>type\<close> is a string (an
  absent type behaves as the empty string everywhere it is read); \<^verbatim>\<open>checked\<close> and
  \<^verbatim>\<open>multiple\<close> are read for truthiness only, so absent is \<open>False\<close>.
\<close>

record Field =
  fld_name :: "string option"
  fld_id :: "string option"
  fld_type :: string
  fld_value :: jsval
  fld_checked :: bool
  fld_options :: "string list option"
  fld_multiple :: bool

text \<open>
  A callback is opaque: the element only stores it and calls it. It is identified by a
  number; what its body does belongs to the caller.
\<close>

datatype ControlCallback = Callback nat

text \<open>The parameter object \<^verbatim>\<open>ControlElementParams\<close>; every property may be absent.\<close>

record ControlElementParams =
  p_name :: "string option"
  p_fields :: "Field list option"
  p_isEventControl :: "bool option"
  p_buttonText :: "string option"
  p_handler :: "ControlCallback option"

text \<open>
  The element's own state: the properties the constructor assigns and the private
  \<^verbatim>\<open>#handler\<close> (\<open>None\<close> is \<^verbatim>\<open>null\<close> or \<^verbatim>\<open>undefined\<close>: both are falsy and both
  fail when called).
\<close>

record ControlElement =
  c_id :: string
  c_name :: "string option"
  c_fields :: "Field list"
  c_isEventControl :: bool
  c_buttonText :: string
  c_handler :: "ControlCallback option"

text \<open>
  What a call can raise: the two built-in errors the modelled code can run into and
  the string the constructor throws.
\<close>

datatype error = TypeError | ReferenceError | Thrown string

text \<open>
  What a call does to the outside: it calls the bound callback with an argument, or it
  writes to the error log.
\<close>

datatype effect = Invoked ControlCallback ControlElement | LogErr string

section \<open>ControlElement: construction\<close>

text \<open>
  \<^verbatim>\<open>
  constructor(params = {}) {
    super();
    let idPrefix = '';
    // If params.name is omitted, use the name of the first field for the id.
    if (params.name === undefined) {
      if (params.fields.length === 0 || params.fields[0].name === undefined) {
        throw('ControlElement: Name or field name must be provided.');
      }
      idPrefix = params.fields[0].name;
    }
    this.id = idPrefix + '_control';
    this.name = params.name;
    this.fields = params.fields ? params.fields : new Array();
    this.isEventControl = params.isEventControl !== undefined ? params.isEventControl : false;
    this.buttonText = params.buttonText ? params.buttonText : 'Call';
    this.#handler = params.handler;
    ...
  }
  \<close>
  \<open>idPrefix\<close> computes the prefix (or the error); reading \<^verbatim>\<open>.length\<close> of an absent
  \<^verbatim>\<open>fields\<close> is a TypeError.
\<close>

definition idPrefix :: "ControlElementParams \<Rightarrow> error + string" where
  "idPrefix params =
     (case p_name params of
        Some n \<Rightarrow> Inr ''''
      | None \<Rightarrow>
         (case p_fields params of
            None \<Rightarrow> Inl TypeError
          | Some [] \<Rightarrow> Inl (Thrown ''ControlElement: Name or field name must be provided.'')
          | Some (f # fs) \<Rightarrow>
             (case fld_name f of
                None \<Rightarrow> Inl (Thrown ''ControlElement: Name or field name must be provided.'')
              | Some fname \<Rightarrow> Inr fname)))"

definition constructor :: "ControlElementParams \<Rightarrow> error + ControlElement" where
  "constructor params =
     (case idPrefix params of
        Inl e \<Rightarrow> Inl e
      | Inr pre \<Rightarrow>
          Inr \<lparr> c_id = pre @ ''_control'',
                c_name = p_name params,
                c_fields = (case p_fields params of Some fs \<Rightarrow> fs | None \<Rightarrow> []),
                c_isEventControl = (case p_isEventControl params of Some b \<Rightarrow> b | None \<Rightarrow> False),
                c_buttonText = (case p_buttonText params of
                                  Some t \<Rightarrow> (if t \<noteq> [] then t else ''Call'')
                                | None \<Rightarrow> ''Call''),
                c_handler = p_handler params \<rparr>)"

section \<open>ControlElement: the handler\<close>

text \<open>
  \<^verbatim>\<open>
  SetButtonHandler(handler) { this.#handler = handler; }
  Submit() { this.#handler(this); }
  #onKeyDown(e) { if (e.code === 'Enter') { this.#handler(this); } }
  onBtnClick(e) {
    if (!this.#handler) {
      Log.err(`Handler for ${buttonText} is not set.`);
      return;
    }
    this.Submit();
  }
  \<close>
  Calling \<^verbatim>\<open>null\<close> or \<^verbatim>\<open>undefined\<close> is a TypeError. None of the three calls assigns
  to a property of the element, so each returns only its result: the error raised, or
  the effects in order.

  In \<^verbatim>\<open>onBtnClick\<close> the template string reads the identifier \<^verbatim>\<open>buttonText\<close>, which
  is neither a local nor an import of the module (the property would be
  \<^verbatim>\<open>this.buttonText\<close>). It resolves in the global scope of the hosting page, which is
  not part of the file: the parameter \<open>global_buttonText\<close> is that binding, already
  as a string, \<open>None\<close> when the page declares none, and then reading it is a
  ReferenceError.
\<close>

definition SetButtonHandler :: "ControlCallback option \<Rightarrow> ControlElement \<Rightarrow> ControlElement" where
  "SetButtonHandler handler c = c\<lparr>c_handler := handler\<rparr>"

definition Submit :: "ControlElement \<Rightarrow> error + effect list" where
  "Submit c = (case c_handler c of None \<Rightarrow> Inl TypeError | Some h \<Rightarrow> Inr [Invoked h c])"

definition onKeyDown :: "string \<Rightarrow> ControlElement \<Rightarrow> error + effect list" where
  "onKeyDown code c =
     (if code = ''Enter''
      then (case c_handler c of None \<Rightarrow> Inl TypeError | Some h \<Rightarrow> Inr [Invoked h c])
      else Inr [])"

definition onBtnClick :: "string option \<Rightarrow> ControlElement \<Rightarrow> error + effect list" where
  "onBtnClick global_buttonText c =
     (case c_handler c of
        None \<Rightarrow>
          (case global_buttonText of
             None \<Rightarrow> Inl ReferenceError
           | Some t \<Rightarrow> Inr [LogErr (''Handler for '' @ t @ '' is not set.'')])
      | Some h \<Rightarrow> Submit c)"

section \<open>ControlElement: rendering\<close>

text \<open>
  The template that \<^verbatim>\<open>render\<close> returns becomes the content of the element's render
  root. The model keeps the elements of that content in document order, each with the
  state that the element's own methods can read or write later:
  \<^item> \<open>Label for text\<close>: a label; it has no id;
  \<^item> \<open>Input id type value checked\<close>: an input with its \<^verbatim>\<open>type\<close> attribute as rendered;
  \<^item> \<open>Select id multiple options\<close>: a select; each option is its value and whether it
    is selected;
  \<^item> \<open>Div id innerText value\<close>: a div; it has no \<^verbatim>\<open>value\<close> property of its own, so an
    assignment to \<^verbatim>\<open>.value\<close> creates one on the object, kept in the last argument
    (\<open>JUndefined\<close> until then);
  \<^item> \<open>Button id text value\<close>: the submit button.
  The template library writes an \<^verbatim>\<open>undefined\<close> binding as the empty string.
\<close>

datatype node =
    Label "string option" string
  | Input string string string bool
  | Select string bool "(string \<times> bool) list"
  | Div string string jsval
  | Button string string string

definition attr :: "string option \<Rightarrow> string" where
  "attr a = (case a of None \<Rightarrow> [] | Some s \<Rightarrow> s)"

text \<open>
  The options of a new select carry no \<^verbatim>\<open>selected\<close> attribute. A select without
  \<^verbatim>\<open>multiple\<close> then shows its first option as selected; a multiple one none.
\<close>

fun initial_options :: "bool \<Rightarrow> string list \<Rightarrow> (string \<times> bool) list" where
  "initial_options multiple [] = []"
| "initial_options multiple (opt # opts) =
     (opt, \<not> multiple) # map (\<lambda>v. (v, False)) opts"

text \<open>
  \<^verbatim>\<open>
  renderField(field) {
    const id = field.id !== undefined ? field.id : field.name;
    let template = [ html`<label for=${field.name}>${field.name}</label>` ];
    switch (field.type) {
      case 'checkbox':
        template.push(html`<input id=${id} type=${field.type} ?checked=${field.checked} /> `);
        break;
      case 'select':
        template.push(html`<select id=${id} ?multiple=${field.multiple}>
            ${field.options.map(option => html`<option value=${option}>${option}</option>`)}
          </select>`);
        break;
      case 'div':
        template.push(html`<div id=${id}></div>`);
        break;
      default:
        template.push(html`<input id=${id} type=${field.type}
              value=${field.value ? field.value : ''} /> `);
        break;
    }
    return template;
  }
  \<close>
  \<^verbatim>\<open>field.options.map\<close> on a descriptor without options is a TypeError.
\<close>

definition field_dom_id :: "Field \<Rightarrow> string" where
  "field_dom_id field = (case fld_id field of Some i \<Rightarrow> i | None \<Rightarrow> attr (fld_name field))"

definition renderField :: "Field \<Rightarrow> error + node list" where
  "renderField field =
     (let id = field_dom_id field;
          label = Label (Some (attr (fld_name field))) (attr (fld_name field))
      in if fld_type field = ''checkbox'' then
           Inr [label, Input id (fld_type field) [] (fld_checked field)]
         else if fld_type field = ''select'' then
           (case fld_options field of
              None \<Rightarrow> Inl TypeError
            | Some opts \<Rightarrow> Inr [label, Select id (fld_multiple field) (initial_options (fld_multiple field) opts)])
         else if fld_type field = ''div'' then
           Inr [label, Div id [] JUndefined]
         else
           Inr [label, Input id (fld_type field)
                         (if truthy (fld_value field) then to_string (fld_value field) else [])
                         False])"

text \<open>
  \<^verbatim>\<open>
  renderFields() {
    let fieldsTemplate = new Array();
    for (const field of this.fields) { fieldsTemplate.push(...this.renderField(field)); }
    return fieldsTemplate;
  }
  \<close>
\<close>

fun renderFields :: "Field list \<Rightarrow> error + node list" where
  "renderFields [] = Inr []"
| "renderFields (fld # flds) =
     (case renderField fld of
        Inl e \<Rightarrow> Inl e
      | Inr template \<Rightarrow>
         (case renderFields flds of
            Inl e \<Rightarrow> Inl e
          | Inr rest \<Rightarrow> Inr (template @ rest)))"

text \<open>
  \<^verbatim>\<open>
  maybeRenderButton() {
    if (this.isEventControl || !this.#handler) { return html``; }
    const buttonLabel = !!this.name ? html`<label>${this.name}</label>` : html``;
    return html`${buttonLabel}
      <button id="button" @click=${this.onBtnClick}>${this.buttonText}</button>`;
  }
  render() { return html`${this.renderFields()} ${this.maybeRenderButton()}`; }
  \<close>
\<close>

definition maybeRenderButton :: "ControlElement \<Rightarrow> node list" where
  "maybeRenderButton c =
     (if c_isEventControl c \<or> c_handler c = None then []
      else (case c_name c of
              None \<Rightarrow> []
            | Some n \<Rightarrow> (if n \<noteq> [] then [Label None n] else []))
           @ [Button ''button'' (c_buttonText c) []])"

definition render :: "ControlElement \<Rightarrow> error + node list" where
  "render c =
     (case renderFields (c_fields c) of
        Inl e \<Rightarrow> Inl e
      | Inr fieldsTemplate \<Rightarrow> Inr (fieldsTemplate @ maybeRenderButton c))"

fun is_button :: "node \<Rightarrow> bool" where
  "is_button (Button i t v) = True"
| "is_button (Label f t) = False"
| "is_button (Input i t v c) = False"
| "is_button (Select i m opts) = False"
| "is_button (Div i t x) = False"

section \<open>ControlElement: reading and writing a field\<close>

text \<open>
  The properties of an element that the two methods read, as the browser defines them.

  \<^verbatim>\<open>type\<close> of an input is its \<^verbatim>\<open>type\<close> attribute in lower case when that is one of
  the known input types, and \<^verbatim>\<open>text\<close> otherwise; of a select it is \<^verbatim>\<open>select-one\<close> or
  \<^verbatim>\<open>select-multiple\<close>; of a button without a type attribute \<^verbatim>\<open>submit\<close>; a div and a
  label have no such property (\<open>None\<close> is \<^verbatim>\<open>undefined\<close>).
\<close>

definition ascii_lower :: "char \<Rightarrow> char" where
  "ascii_lower ch =
     (case map_of (zip ''ABCDEFGHIJKLMNOPQRSTUVWXYZ'' ''abcdefghijklmnopqrstuvwxyz'') ch of
        Some l \<Rightarrow> l
      | None \<Rightarrow> ch)"

definition input_types :: "string list" where
  "input_types =
     [''hidden'', ''text'', ''search'', ''tel'', ''url'', ''email'', ''password'', ''date'',
      ''month'', ''week'', ''time'', ''datetime-local'', ''number'', ''range'', ''color'',
      ''checkbox'', ''radio'', ''file'', ''submit'', ''image'', ''reset'', ''button'']"

definition input_type :: "string \<Rightarrow> string" where
  "input_type a = (let l = map ascii_lower a in if l \<in> set input_types then l else ''text'')"

fun dom_type :: "node \<Rightarrow> string option" where
  "dom_type (Label f t) = None"
| "dom_type (Input i t v c) = Some (input_type t)"
| "dom_type (Select i m opts) = Some (if m then ''select-multiple'' else ''select-one'')"
| "dom_type (Div i t x) = None"
| "dom_type (Button i t v) = Some ''submit''"

fun node_id :: "node \<Rightarrow> string option" where
  "node_id (Label f t) = None"
| "node_id (Input i t v c) = Some i"
| "node_id (Select i m opts) = Some i"
| "node_id (Div i t x) = Some i"
| "node_id (Button i t v) = Some i"

text \<open>
  \<^verbatim>\<open>this.renderRoot.querySelector(`#${fieldName}`)\<close>: for a field name that is an
  identifier (\<open>plain_ident\<close>: letters, digits, hyphen and underscore, not starting
  with a digit or a hyphen) the selector is an id selector, and the result is the first
  element in document order with that id, here its position, or \<^verbatim>\<open>null\<close>. For other
  strings the selector means something else or is not a selector at all; the callers
  give such fields an \<^verbatim>\<open>id\<close> of their own. The embedding covers identifiers.
\<close>

definition plain_ident :: "string \<Rightarrow> bool" where
  "plain_ident s =
     (case s of
        [] \<Rightarrow> False
      | ch # rest \<Rightarrow>
          ch \<in> set ''abcdefghijklmnopqrstuvwxyzABCDEFGHIJKLMNOPQRSTUVWXYZ_'' \<and>
          set rest \<subseteq> set ''abcdefghijklmnopqrstuvwxyzABCDEFGHIJKLMNOPQRSTUVWXYZ_0123456789-'')"

fun querySelector :: "node list \<Rightarrow> string \<Rightarrow> nat option" where
  "querySelector [] fieldName = None"
| "querySelector (el # els) fieldName =
     (if node_id el = Some fieldName then Some 0
      else map_option Suc (querySelector els fieldName))"

text \<open>
  The getters. \<^verbatim>\<open>checked\<close> exists on inputs and \<^verbatim>\<open>options\<close> on selects only.
  \<^verbatim>\<open>value\<close> of a select is the value of its first selected option, or the empty string.
\<close>

fun get_checked :: "node \<Rightarrow> jsval" where
  "get_checked (Input i t v c) = JBool c"
| "get_checked el = JUndefined"

fun get_options :: "node \<Rightarrow> jsval" where
  "get_options (Select i m opts) = JOptions opts"
| "get_options el = JUndefined"

fun first_selected :: "(string \<times> bool) list \<Rightarrow> string" where
  "first_selected [] = []"
| "first_selected ((v, sel) # opts) = (if sel then v else first_selected opts)"

fun get_value :: "node \<Rightarrow> jsval" where
  "get_value (Label f t) = JUndefined"
| "get_value (Input i t v c) = JStr v"
| "get_value (Select i m opts) = JStr (first_selected opts)"
| "get_value (Div i t x) = x"
| "get_value (Button i t v) = JStr v"

text \<open>
  The setters. An assignment to a property that the element does not have creates a
  property on the object that nothing modelled reads; the element is then unchanged.
  \<^verbatim>\<open>value\<close> of an input and \<^verbatim>\<open>innerText\<close> take \<^verbatim>\<open>null\<close> as the empty string.
  Assigning \<^verbatim>\<open>value\<close> of a select deselects every option and then selects the first
  option with that value, if there is one. Assigning \<^verbatim>\<open>innerText\<close> replaces the
  children, which for a select are its options. The sanitization that an input applies
  to an assigned string for some types is not modelled.
\<close>

fun set_checked :: "jsval \<Rightarrow> node \<Rightarrow> node" where
  "set_checked x (Input i t v c) = Input i t v (truthy x)"
| "set_checked x el = el"

definition dom_string_null_empty :: "jsval \<Rightarrow> string" where
  "dom_string_null_empty x = (if x = JNull then [] else to_string x)"

fun set_innerText :: "jsval \<Rightarrow> node \<Rightarrow> node" where
  "set_innerText x (Label f t) = Label f (dom_string_null_empty x)"
| "set_innerText x (Input i t v c) = Input i t v c"
| "set_innerText x (Select i m opts) = Select i m []"
| "set_innerText x (Div i t y) = Div i (dom_string_null_empty x) y"
| "set_innerText x (Button i t v) = Button i (dom_string_null_empty x) v"

fun select_value :: "string \<Rightarrow> (string \<times> bool) list \<Rightarrow> (string \<times> bool) list" where
  "select_value s [] = []"
| "select_value s ((v, sel) # opts) =
     (if v = s then (v, True) # map (\<lambda>(w, b). (w, False)) opts
      else (v, False) # select_value s opts)"

fun set_value :: "jsval \<Rightarrow> node \<Rightarrow> node" where
  "set_value x (Label f t) = Label f t"
| "set_value x (Input i t v c) = Input i t (dom_string_null_empty x) c"
| "set_value x (Select i m opts) = Select i m (select_value (to_string x) opts)"
| "set_value x (Div i t y) = Div i t x"
| "set_value x (Button i t v) = Button i t (to_string x)"

text \<open>
  \<^verbatim>\<open>
  async GetFieldValue(fieldName) {
    if (!this.renderRoot) { await this.updateComplete; }
    const field = this.renderRoot.querySelector(`#${fieldName}`);
    switch (field.type) {
      case 'checkbox':        return field.checked;
      case 'select-multiple': return field.options;
      default:                return field.value;
    }
  }
  UpdateFieldValue(fieldName, value) {
    const updateValue = () => {
      const field = this.renderRoot.querySelector(`#${fieldName}`);
      switch (field.type) {
        case 'checkbox': field.checked = value; return;
        case 'div':      field.innerText = value; return;
        case 'select':   // TODO if needed.
                         return;
        default:         field.value = value;
      }
    };
    if (!this.renderRoot) { this.updateComplete.then(updateValue); return; }
    updateValue();
  }
  \<close>
  Here \<^verbatim>\<open>field\<close> is the element that \<^verbatim>\<open>querySelector\<close> found, not the descriptor, so
  \<^verbatim>\<open>field.type\<close> is \<open>dom_type\<close>. Reading \<^verbatim>\<open>.type\<close> of \<^verbatim>\<open>null\<close> is a TypeError.
  Both functions are the body that runs once the render root exists (before the first
  render the call waits for it and then runs the same body); the argument \<open>root\<close> is
  the content of the render root at that moment, and \<open>UpdateFieldValue\<close> returns the
  content after the assignment.
\<close>

definition GetFieldValue :: "node list \<Rightarrow> string \<Rightarrow> error + jsval" where
  "GetFieldValue root fieldName =
     (case querySelector root fieldName of
        None \<Rightarrow> Inl TypeError
      | Some k \<Rightarrow>
         (let field = root ! k
          in if dom_type field = Some ''checkbox'' then Inr (get_checked field)
             else if dom_type field = Some ''select-multiple'' then Inr (get_options field)
             else Inr (get_value field)))"

definition UpdateFieldValue :: "node list \<Rightarrow> string \<Rightarrow> jsval \<Rightarrow> error + node list" where
  "UpdateFieldValue root fieldName val =
     (case querySelector root fieldName of
        None \<Rightarrow> Inl TypeError
      | Some k \<Rightarrow>
         (let field = root ! k
          in if dom_type field = Some ''checkbox'' then Inr (root[k := set_checked val field])
             else if dom_type field = Some ''div'' then Inr (root[k := set_innerText val field])
             else if dom_type field = Some ''select'' then Inr root
             else Inr (root[k := set_value val field])))"

text \<open>
  A content \<open>root\<close> is a rendered state of the control \<open>c\<close> when it has the elements
  that \<open>render c\<close> produces, whatever the user or earlier calls have since entered,
  checked or selected: \<open>shape\<close> forgets exactly that state.
\<close>

fun shape :: "node \<Rightarrow> node" where
  "shape (Label f t) = Label f t"
| "shape (Input i t v c) = Input i t [] False"
| "shape (Select i m opts) = Select i m (map (\<lambda>(v, b). (v, False)) opts)"
| "shape (Div i t x) = Div i [] JUndefined"
| "shape (Button i t v) = Button i t []"

definition rendered :: "ControlElement \<Rightarrow> node list \<Rightarrow> bool" where
  "rendered c root =
     (case render c of
        Inl e \<Rightarrow> False
      | Inr fresh \<Rightarrow> map shape root = map shape fresh)"

text \<open>The options of a collection that are selected (its \<^verbatim>\<open>selectedOptions\<close>).\<close>

definition selectedOptions :: "(string \<times> bool) list \<Rightarrow> (string \<times> bool) list" where
  "selectedOptions opts = filter snd opts"

section \<open>ControlGroupElement\<close>

text \<open>
  A group holds its children by reference, and \<^verbatim>\<open>render\<close> and \<^verbatim>\<open>SetExpanded\<close> write
  to the children through these references. The elements therefore live in a store,
  from references to objects; a group's \<^verbatim>\<open>#controls\<close> is a list of references, and
  \<^verbatim>\<open>control instanceof ControlGroupElement\<close> is \<open>is_group\<close>. \<^verbatim>\<open>depth\<close> is a small
  count of nesting levels, an integer.
\<close>

type_synonym ref = nat

record ControlGroupElement =
  g_heading :: "string option"
  g_depth :: int
  g_controls :: "ref list"
  g_expanded :: bool

datatype element = ControlObj ControlElement | GroupObj ControlGroupElement

type_synonym store = "ref \<Rightarrow> element option"

record ControlGroupParams =
  gp_heading :: "string option"
  gp_controls :: "ref list option"
  gp_expanded :: "bool option"

text \<open>
  \<^verbatim>\<open>
  constructor(params = {}) {
    super();
    this.heading = params.heading;
    this.depth = 0;
    this.#controls = params.controls ? params.controls : new Array();
    if (params.expanded !== undefined) { this.expanded = params.expanded; }
    else { this.expanded = true; }
  }
  \<close>
\<close>

definition group_constructor :: "ControlGroupParams \<Rightarrow> ControlGroupElement" where
  "group_constructor params =
     \<lparr> g_heading = gp_heading params,
       g_depth = 0,
       g_controls = (case gp_controls params of Some cs \<Rightarrow> cs | None \<Rightarrow> []),
       g_expanded = (case gp_expanded params of Some b \<Rightarrow> b | None \<Rightarrow> True) \<rparr>"

definition is_group :: "store \<Rightarrow> ref \<Rightarrow> bool" where
  "is_group h r = (case h r of Some (GroupObj g) \<Rightarrow> True | _ \<Rightarrow> False)"

text \<open>
  The methods take the receiver \<open>this\<close> as a reference and the store, and return the
  store after the call. They are methods of a group: on a reference that holds no
  group there is nothing to call, and the model leaves the store as it is.
  \<^verbatim>\<open>
  AddControl(control) { this.#controls.push(control); }
  SetGroupDepth(depth) { this.depth = depth; }
  #toggleCollapseGroup() { this.expanded = !this.expanded; }
  \<close>
\<close>

definition AddControl :: "ref \<Rightarrow> ref \<Rightarrow> store \<Rightarrow> store" where
  "AddControl control this h =
     (case h this of
        Some (GroupObj g) \<Rightarrow> h(this \<mapsto> GroupObj (g\<lparr>g_controls := g_controls g @ [control]\<rparr>))
      | _ \<Rightarrow> h)"

definition SetGroupDepth :: "int \<Rightarrow> ref \<Rightarrow> store \<Rightarrow> store" where
  "SetGroupDepth depth this h =
     (case h this of
        Some (GroupObj g) \<Rightarrow> h(this \<mapsto> GroupObj (g\<lparr>g_depth := depth\<rparr>))
      | _ \<Rightarrow> h)"

definition toggleCollapseGroup :: "ref \<Rightarrow> store \<Rightarrow> store" where
  "toggleCollapseGroup this h =
     (case h this of
        Some (GroupObj g) \<Rightarrow> h(this \<mapsto> GroupObj (g\<lparr>g_expanded := \<not> g_expanded g\<rparr>))
      | _ \<Rightarrow> h)"

text \<open>
  \<^verbatim>\<open>
  render() {
    const controlsClasses = { controls: true, collapsed: !this.expanded };
    const titleClasses = { title: true };
    titleClasses[`depth${this.depth}`] = true;
    return html`
      <div class=${classMap(titleClasses)} @click="${this.#toggleCollapseGroup}">
        ${this.expanded ? html`[-]` : html`[+]`} ${this.heading}
      </div>
      <div id="controls" class=${classMap(controlsClasses)}>
        ${this.#controls.map(control => {
          if (control instanceof ControlGroupElement) {
            control.SetGroupDepth(this.depth + 1);
          }
          return control;
        })}
        <slot></slot>
      </div>`;
  }
  \<close>
  The callback of \<^verbatim>\<open>map\<close> runs once per child, in order, and reads \<^verbatim>\<open>this.depth\<close>
  each time: \<open>render_controls\<close> is that loop. The template is what the method returns:
  the number in the title's \<^verbatim>\<open>depthN\<close> class, the indicator, the heading, whether the
  children's region has the class \<^verbatim>\<open>collapsed\<close>, and the children.
\<close>

definition depth_of :: "store \<Rightarrow> ref \<Rightarrow> int" where
  "depth_of h r = (case h r of Some (GroupObj g) \<Rightarrow> g_depth g | _ \<Rightarrow> 0)"

fun render_controls :: "ref \<Rightarrow> ref list \<Rightarrow> store \<Rightarrow> store" where
  "render_controls this [] h = h"
| "render_controls this (control # controls) h =
     render_controls this controls
       (if is_group h control then SetGroupDepth (depth_of h this + 1) control h else h)"

record group_template =
  t_depth_class :: int
  t_indicator :: string
  t_heading :: string
  t_collapsed :: bool
  t_controls :: "ref list"

definition group_render :: "ref \<Rightarrow> store \<Rightarrow> (group_template \<times> store) option" where
  "group_render this h =
     (case h this of
        Some (GroupObj g) \<Rightarrow>
          Some (\<lparr> t_depth_class = g_depth g,
                  t_indicator = (if g_expanded g then ''[-]'' else ''[+]''),
                  t_heading = attr (g_heading g),
                  t_collapsed = (\<not> g_expanded g),
                  t_controls = g_controls g \<rparr>,
                render_controls this (g_controls g) h)
      | _ \<Rightarrow> None)"

text \<open>
  \<^verbatim>\<open>
  SetExpanded(expanded) {
    for (const control of this.#controls) {
      if (control instanceof ControlGroupElement) { control.SetExpanded(expanded); }
    }
    this.expanded = expanded;
  }
  \<close>
  The method calls itself on the child groups, and on a store where a group reaches
  itself through its children the calls never end. The first argument bounds the
  depth of the nested calls; \<open>None\<close> says that the bound was reached.
\<close>

definition assign_expanded :: "bool \<Rightarrow> ref \<Rightarrow> store \<Rightarrow> store" where
  "assign_expanded expanded this h =
     (case h this of
        Some (GroupObj g) \<Rightarrow> h(this \<mapsto> GroupObj (g\<lparr>g_expanded := expanded\<rparr>))
      | _ \<Rightarrow> h)"

fun SetExpanded :: "nat \<Rightarrow> bool \<Rightarrow> ref \<Rightarrow> store \<Rightarrow> store option"
  and SetExpanded_controls :: "nat \<Rightarrow> bool \<Rightarrow> ref list \<Rightarrow> store \<Rightarrow> store option" where
  "SetExpanded 0 expanded this h = None"
| "SetExpanded (Suc fuel) expanded this h =
     (case h this of
        Some (GroupObj g) \<Rightarrow>
          (case SetExpanded_controls fuel expanded (g_controls g) h of
             None \<Rightarrow> None
           | Some h' \<Rightarrow> Some (assign_expanded expanded this h'))
      | _ \<Rightarrow> Some h)"
| "SetExpanded_controls fuel expanded [] h = Some h"
| "SetExpanded_controls fuel expanded (control # controls) h =
     (if is_group h control then
        (case SetExpanded fuel expanded control h of
           None \<Rightarrow> None
         | Some h' \<Rightarrow> SetExpanded_controls fuel expanded controls h')
      else SetExpanded_controls fuel expanded controls h)"

text \<open>
  The elements below a reference: the reference itself and, for a group, everything
  below each of its children.
\<close>

inductive_set descendants :: "store \<Rightarrow> ref \<Rightarrow> ref set" for h :: store and root :: ref where
  self: "root \<in> descendants h root"
| child: "r \<in> descendants h root \<Longrightarrow> h r = Some (GroupObj g) \<Longrightarrow> c \<in> set (g_controls g)
          \<Longrightarrow> c \<in> descendants h root"

text \<open>
  A store is a forest of finite height when a rank on the references decreases from
  every group to each child group. (Two groups may still share a child.)
\<close>

definition ranked :: "(ref \<Rightarrow> nat) \<Rightarrow> store \<Rightarrow> bool" where
  "ranked rank h =
     (\<forall>r g c. h r = Some (GroupObj g) \<and> c \<in> set (g_controls g) \<and> is_group h c \<longrightarrow> rank c < rank r)"

text \<open>The store in which the groups of a set have \<^verbatim>\<open>expanded\<close> assigned.\<close>

definition expand_obj :: "bool \<Rightarrow> element option \<Rightarrow> element option" where
  "expand_obj b x =
     (case x of
        Some (GroupObj g) \<Rightarrow> Some (GroupObj (g\<lparr>g_expanded := b\<rparr>))
      | _ \<Rightarrow> x)"

definition expand_in :: "bool \<Rightarrow> ref set \<Rightarrow> store \<Rightarrow> store" where
  "expand_in b D h = (\<lambda>r. if r \<in> D then expand_obj b (h r) else h r)"

text \<open>The store entry with \<^verbatim>\<open>depth\<close> assigned, when it is a group.\<close>

definition set_depth :: "int \<Rightarrow> element option \<Rightarrow> element option" where
  "set_depth d x = (case x of Some (GroupObj g) \<Rightarrow> Some (GroupObj (g\<lparr>g_depth := d\<rparr>)) | _ \<Rightarrow> x)"

section \<open>Example inputs\<close>

text \<open>
  Controls as the application builds them: the service worker control
  (\<^verbatim>\<open>name\<close>, \<^verbatim>\<open>buttonText\<close> and \<^verbatim>\<open>handler\<close>, no fields), and controls of the context
  menu properties, which have fields and neither a name nor a handler.
\<close>

definition update_params :: ControlElementParams where
  "update_params =
     \<lparr> p_name = Some ''Update ServiceWorker'', p_fields = None, p_isEventControl = None,
       p_buttonText = Some ''Update'', p_handler = Some (Callback 0) \<rparr>"

definition update_control :: ControlElement where
  "update_control =
     \<lparr> c_id = ''_control'', c_name = Some ''Update ServiceWorker'', c_fields = [],
       c_isEventControl = False, c_buttonText = ''Update'', c_handler = Some (Callback 0) \<rparr>"

definition id_field :: Field where
  "id_field =
     \<lparr> fld_name = Some ''id'', fld_id = None, fld_type = ''text'', fld_value = JUndefined,
       fld_checked = False, fld_options = None, fld_multiple = False \<rparr>"

definition properties_params :: ControlElementParams where
  "properties_params =
     \<lparr> p_name = None, p_fields = Some [id_field], p_isEventControl = None,
       p_buttonText = None, p_handler = None \<rparr>"

definition properties_control :: ControlElement where
  "properties_control =
     \<lparr> c_id = ''id_control'', c_name = None, c_fields = [id_field],
       c_isEventControl = False, c_buttonText = ''Call'', c_handler = None \<rparr>"

definition event_control :: ControlElement where
  "event_control =
     \<lparr> c_id = ''id_control'', c_name = None, c_fields = [id_field],
       c_isEventControl = True, c_buttonText = ''Call'', c_handler = Some (Callback 1) \<rparr>"

definition contexts_field :: Field where
  "contexts_field =
     \<lparr> fld_name = Some ''contexts'', fld_id = None, fld_type = ''select'', fld_value = JUndefined,
       fld_checked = False, fld_options = Some [''all'', ''page''], fld_multiple = True \<rparr>"

definition contexts_control :: ControlElement where
  "contexts_control =
     \<lparr> c_id = ''contexts_control'', c_name = None, c_fields = [contexts_field],
       c_isEventControl = False, c_buttonText = ''Call'', c_handler = None \<rparr>"

text \<open>The content of that control after the user has selected the option \<^verbatim>\<open>page\<close>.\<close>

definition contexts_root :: "node list" where
  "contexts_root =
     [Label (Some ''contexts'') ''contexts'',
      Select ''contexts'' True [(''all'', False), (''page'', True)]]"

definition type_field :: Field where
  "type_field =
     \<lparr> fld_name = Some ''type'', fld_id = None, fld_type = ''select'', fld_value = JUndefined,
       fld_checked = False,
       fld_options = Some [''normal'', ''checkbox'', ''radio'', ''separator''],
       fld_multiple = False \<rparr>"

definition type_control :: ControlElement where
  "type_control =
     \<lparr> c_id = ''type_control'', c_name = None, c_fields = [type_field],
       c_isEventControl = False, c_buttonText = ''Call'', c_handler = None \<rparr>"

definition enabled_field :: Field where
  "enabled_field =
     \<lparr> fld_name = Some ''enabled'', fld_id = None, fld_type = ''checkbox'', fld_value = JUndefined,
       fld_checked = False, fld_options = None, fld_multiple = False \<rparr>"

definition enabled_control :: ControlElement where
  "enabled_control =
     \<lparr> c_id = ''id_control'', c_name = None, c_fields = [id_field, enabled_field],
       c_isEventControl = False, c_buttonText = ''Call'', c_handler = None \<rparr>"

text \<open>
  A checkbox whose element id differs from its name, as the application writes its
  own checkboxes (\<^verbatim>\<open>{name: 'canGoBack()', id: 'canGoBack', type: 'checkbox'}\<close>).
\<close>

definition override_field :: Field where
  "override_field =
     \<lparr> fld_name = Some ''enabled'', fld_id = Some ''enabled_chk'', fld_type = ''checkbox'',
       fld_value = JUndefined, fld_checked = False, fld_options = None, fld_multiple = False \<rparr>"

definition override_control :: ControlElement where
  "override_control =
     \<lparr> c_id = ''enabled_control'', c_name = None, c_fields = [override_field],
       c_isEventControl = False, c_buttonText = ''Call'', c_handler = None \<rparr>"

definition override_root :: "node list" where
  "override_root =
     [Label (Some ''enabled'') ''enabled'', Input ''enabled_chk'' ''checkbox'' [] False]"

definition enabled_root :: "node list" where
  "enabled_root =
     [Label (Some ''id'') ''id'', Input ''id'' ''text'' ''menu1'' False,
      Label (Some ''enabled'') ''enabled'', Input ''enabled'' ''checkbox'' [] False]"

text \<open>
  A store with three nested groups: group 0 holds control 1 and group 2, group 2 holds
  control 3 and group 4, group 4 is empty. Group 5 stands apart. \<open>example_rank\<close> is
  the height of each group.
\<close>

definition group_A :: ControlGroupElement where
  "group_A = \<lparr> g_heading = Some ''A'', g_depth = 0, g_controls = [1, 2], g_expanded = True \<rparr>"

definition group_B :: ControlGroupElement where
  "group_B = \<lparr> g_heading = Some ''B'', g_depth = 0, g_controls = [3, 4], g_expanded = True \<rparr>"

definition group_C :: ControlGroupElement where
  "group_C = \<lparr> g_heading = Some ''C'', g_depth = 0, g_controls = [], g_expanded = False \<rparr>"

definition group_P :: ControlGroupElement where
  "group_P = \<lparr> g_heading = Some ''P'', g_depth = 3, g_controls = [], g_expanded = True \<rparr>"

definition example_store :: store where
  "example_store =
     [0 \<mapsto> GroupObj group_A, 1 \<mapsto> ControlObj update_control, 2 \<mapsto> GroupObj group_B,
      3 \<mapsto> ControlObj properties_control, 4 \<mapsto> GroupObj group_C, 5 \<mapsto> GroupObj group_P]"

definition example_rank :: "ref \<Rightarrow> nat" where
  "example_rank r = (if r = 0 then 2 else if r = 2 then 1 else 0)"

section \<open>Looking up a rendered field\<close>

lemma querySelector_SomeD:
  "querySelector root n = Some k \<Longrightarrow> k < length root \<and> node_id (root ! k) = Some n"
proof (induction root arbitrary: k)
  case Nil
  then show ?case by simp
next
  case (Cons el els)
  show ?case
  proof (cases "node_id el = Some n")
    case True
    with Cons.prems show ?thesis by simp
  next
    case False
    with Cons.prems obtain j where j: "querySelector els n = Some j" "k = Suc j"
      by auto
    with Cons.IH show ?thesis by simp
  qed
qed

lemma querySelector_ids:
  "map node_id root = map node_id root' \<Longrightarrow> querySelector root n = querySelector root' n"
proof (induction root arbitrary: root')
  case Nil
  then show ?case by simp
next
  case (Cons el els)
  then obtain el' els' where r: "root' = el' # els'" "node_id el = node_id el'"
    "map node_id els = map node_id els'"
    by (cases root') auto
  with Cons.IH show ?case by simp
qed

lemma node_id_shape: "node_id (shape el) = node_id el"
  by (cases el) simp_all

lemma shape_ids:
  assumes "map shape root = map shape root'"
  shows "map node_id root = map node_id root'"
proof -
  have "map node_id root = map node_id (map shape root)"
    by (simp add: node_id_shape)
  also have "\<dots> = map node_id (map shape root')"
    using assms by simp
  also have "\<dots> = map node_id root'"
    by (simp add: node_id_shape)
  finally show ?thesis .
qed

lemma querySelector_append_Some:
  "querySelector xs n = Some k \<Longrightarrow> querySelector (xs @ ys) n = Some k"
  by (induction xs arbitrary: k) (auto split: if_splits)

lemma renderField_parts:
  assumes "renderField f = Inr t"
  shows "\<exists>w. t = [Label (Some (attr (fld_name f))) (attr (fld_name f)), w]
             \<and> node_id w = Some (field_dom_id f)"
  using assms
  by (auto simp: renderField_def Let_def split: if_splits option.splits)

lemma renderFields_lookup:
  assumes "find (\<lambda>f. field_dom_id f = n) flds = Some f"
    and "renderFields flds = Inr fresh"
  shows "\<exists>k lbl w. querySelector fresh n = Some k \<and> renderField f = Inr [lbl, w] \<and> fresh ! k = w"
  using assms
proof (induction flds arbitrary: fresh)
  case Nil
  then show ?case by simp
next
  case (Cons fld flds)
  from Cons.prems(2) obtain t rest where
    t: "renderField fld = Inr t" and rest: "renderFields flds = Inr rest" and fresh: "fresh = t @ rest"
    by (auto split: sum.splits)
  from renderField_parts [OF t] obtain w where
    w: "t = [Label (Some (attr (fld_name fld))) (attr (fld_name fld)), w]"
       "node_id w = Some (field_dom_id fld)"
    by blast
  show ?case
  proof (cases "field_dom_id fld = n")
    case True
    with Cons.prems(1) have "f = fld" by simp
    with True t w fresh show ?thesis by simp
  next
    case False
    with Cons.prems(1) have "find (\<lambda>f. field_dom_id f = n) flds = Some f" by simp
    from Cons.IH [OF this rest] obtain k lbl w' where
      k: "querySelector rest n = Some k" "renderField f = Inr [lbl, w']" "rest ! k = w'"
      by blast
    with False w fresh show ?thesis by simp
  qed
qed

lemma rendered_lookup:
  assumes "rendered c root"
    and "find (\<lambda>f. field_dom_id f = n) (c_fields c) = Some f"
  shows "\<exists>k lbl w. querySelector root n = Some k \<and> k < length root
            \<and> renderField f = Inr [lbl, w] \<and> shape (root ! k) = shape w"
proof -
  from assms(1) obtain fresh where fresh: "render c = Inr fresh" "map shape root = map shape fresh"
    by (auto simp: rendered_def split: sum.splits)
  then obtain ft where ft: "renderFields (c_fields c) = Inr ft" "fresh = ft @ maybeRenderButton c"
    by (auto simp: render_def split: sum.splits)
  from renderFields_lookup [OF assms(2) ft(1)] obtain k lbl w where
    k: "querySelector ft n = Some k" "renderField f = Inr [lbl, w]" "ft ! k = w"
    by blast
  from querySelector_SomeD [OF k(1)] have klt: "k < length ft" by simp
  have q: "querySelector fresh n = Some k"
    using k(1) ft(2) by (simp add: querySelector_append_Some)
  have "querySelector root n = querySelector fresh n"
    by (rule querySelector_ids) (rule shape_ids [OF fresh(2)])
  with q have qr: "querySelector root n = Some k" by simp
  from fresh(2) have len: "length root = length fresh"
    by (metis length_map)
  with klt ft(2) have kr: "k < length root" by simp
  have "shape (root ! k) = map shape root ! k" using kr by simp
  also have "\<dots> = map shape fresh ! k" using fresh(2) by simp
  also have "\<dots> = shape (fresh ! k)" using kr len by simp
  also have "fresh ! k = w" using klt ft(2) k(3) by (simp add: nth_append)
  finally have "shape (root ! k) = shape w" .
  with qr kr k(2) show ?thesis by blast
qed

lemma input_type_checkbox: "input_type ''checkbox'' = ''checkbox''"
  by (simp add: input_type_def ascii_lower_def input_types_def)

lemma shape_Input:
  "shape el = Input i t [] False \<Longrightarrow> \<exists>v c. el = Input i t v c"
  by (cases el) simp_all

lemma shape_Select:
  "shape el = Select i m opts \<Longrightarrow> \<exists>opts'. el = Select i m opts' \<and> map fst opts' = map fst opts"
  by (cases el) (auto simp: comp_def case_prod_beta)

lemma rendered_update:
  assumes "rendered c root" "k < length root" "shape el = shape (root ! k)"
  shows "rendered c (root[k := el])"
proof -
  have "map shape (root[k := el]) = (map shape root)[k := shape el]"
    by (simp add: map_update)
  also have "\<dots> = map shape root"
    using assms(2,3) by (simp add: list_update_same_conv)
  finally show ?thesis
    using assms(1) by (simp add: rendered_def split: sum.splits)
qed

lemma input_type_known: "input_type a \<in> set input_types"
  by (simp add: input_type_def Let_def input_types_def)

text \<open>
  No element has the type \<^verbatim>\<open>select\<close> or \<^verbatim>\<open>div\<close>: these two cases of the switch in
  \<^verbatim>\<open>UpdateFieldValue\<close> are never taken, and a select or a div is written through the
  default case.
\<close>

lemma dom_type_not_select_div:
  "dom_type el \<noteq> Some ''select'' \<and> dom_type el \<noteq> Some ''div''"
proof (cases el)
  case (Input i t v c)
  have "''select'' \<notin> set input_types" "''div'' \<notin> set input_types"
    by (simp_all add: input_types_def)
  with input_type_known [of t] Input show ?thesis by auto
qed simp_all

lemma UpdateFieldValue_select:
  assumes "querySelector root n = Some k" "root ! k = Select i m opts"
  shows "UpdateFieldValue root n x = Inr (root[k := Select i m (select_value (to_string x) opts)])"
  using assms by (simp add: UpdateFieldValue_def)

lemma plain_ident_contexts: "plain_ident ''contexts''"
  by (simp add: plain_ident_def)

lemma rendered_contexts: "rendered contexts_control contexts_root"
  by (simp add: rendered_def render_def renderField_def contexts_control_def contexts_field_def
      contexts_root_def field_dom_id_def attr_def maybeRenderButton_def)

lemma constructor_properties: "constructor properties_params = Inr properties_control"
  by (simp add: constructor_def idPrefix_def properties_params_def properties_control_def id_field_def)

section \<open>The handler\<close>

text \<open>
  With a handler bound, the Enter key and a click on the button do what \<open>Submit\<close> does,
  whether or not the control is an event control.
\<close>

lemma bound_handler_paths:
  "c_handler c = Some h \<Longrightarrow> onKeyDown ''Enter'' c = Submit c \<and> onBtnClick g c = Submit c"
  by (simp add: onKeyDown_def onBtnClick_def Submit_def)

lemma onKeyDown_other_key: "code \<noteq> ''Enter'' \<Longrightarrow> onKeyDown code c = Inr []"
  by (simp add: onKeyDown_def)

text \<open>
  C1. The claim: on a control with no bound handler, \<open>Submit\<close> logs a warning, does not
  throw and leaves the control as it is. On the control that the constructor builds
  from fields alone, \<open>Submit\<close> raises a TypeError (it calls the absent handler) and logs
  nothing; the guard for an absent handler stands in \<open>onBtnClick\<close> only, and there the
  message it builds reads an identifier that the module does not declare.
\<close>

theorem Submit_without_handler:
  "constructor properties_params = Inr properties_control
   \<and> c_handler properties_control = None
   \<and> Submit properties_control = Inl TypeError
   \<and> onBtnClick None properties_control = Inl ReferenceError
   \<and> onBtnClick (Some ''Call'') properties_control = Inr [LogErr ''Handler for Call is not set.'']"
  using constructor_properties
  by (simp add: Submit_def onBtnClick_def properties_control_def)

text \<open>
  C2. The claim: the Enter key calls the handler as a click on the button would, and
  only when a handler is bound and the control is not an event control; otherwise it
  has no effect and does not throw. On the control without a handler the key raises a
  TypeError, and on an event control with a handler (which renders no button) it calls
  the handler: \<open>onKeyDown\<close> checks neither condition.
\<close>

theorem onKeyDown_unguarded:
  "constructor properties_params = Inr properties_control
   \<and> c_handler properties_control = None
   \<and> onKeyDown ''Enter'' properties_control = Inl TypeError
   \<and> c_isEventControl event_control
   \<and> maybeRenderButton event_control = []
   \<and> onKeyDown ''Enter'' event_control = Inr [Invoked (Callback 1) event_control]"
  using constructor_properties
  by (simp add: onKeyDown_def properties_control_def event_control_def maybeRenderButton_def)

text \<open>
  C9. For every control with a bound handler \<open>h\<close>, \<open>Submit\<close> calls \<open>h\<close> exactly once,
  with the control itself as the only argument: the call raises nothing and its effects
  are the one invocation of \<open>h\<close> on \<open>c\<close>.
\<close>

theorem Submit_calls_handler_once:
  "c_handler c = Some h \<Longrightarrow> Submit c = Inr [Invoked h c]"
  by (simp add: Submit_def)

theorem Submit_calls_handler_once_witness:
  "c_handler update_control = Some (Callback 0)
   \<and> Submit update_control = Inr [Invoked (Callback 0) update_control]"
proof -
  have h: "c_handler update_control = Some (Callback 0)"
    by (simp add: update_control_def)
  from Submit_calls_handler_once [OF h] h show ?thesis by simp
qed

section \<open>Construction\<close>

text \<open>What the constructor does in each case of its parameters.\<close>

lemma constructor_throws:
  "p_name params = None \<Longrightarrow> p_fields params = Some [] \<or> (\<exists>f fs. p_fields params = Some (f # fs) \<and> fld_name f = None)
     \<Longrightarrow> constructor params = Inl (Thrown ''ControlElement: Name or field name must be provided.'')"
  by (auto simp: constructor_def idPrefix_def)

lemma constructor_field_name_id:
  "p_name params = None \<Longrightarrow> p_fields params = Some (f # fs) \<Longrightarrow> fld_name f = Some n
     \<Longrightarrow> \<exists>c. constructor params = Inr c \<and> c_id c = n @ ''_control''"
  by (simp add: constructor_def idPrefix_def)

lemma constructor_named_id:
  "p_name params = Some n \<Longrightarrow> \<exists>c. constructor params = Inr c \<and> c_id c = ''_control''"
  by (simp add: constructor_def idPrefix_def)

text \<open>
  C8. The claim: without a name and with no fields or a first field without a name the
  constructor throws; in every other case it succeeds, and the id is the group name or
  the first field's name followed by \<^verbatim>\<open>_control\<close>. For the control that the
  application names \<^verbatim>\<open>Update ServiceWorker\<close> the constructor succeeds, and the id is
  \<^verbatim>\<open>_control\<close> alone: the prefix is taken from the first field when the name is
  absent and stays empty when the name is given.
\<close>

theorem constructor_named_control_id:
  "constructor update_params = Inr update_control \<and> c_id update_control = ''_control''
   \<and> c_id update_control \<noteq> ''Update ServiceWorker_control''"
  by (simp add: constructor_def idPrefix_def update_params_def update_control_def)

section \<open>The submit button\<close>

lemma renderField_no_button:
  "renderField f = Inr t \<Longrightarrow> \<not> list_ex is_button t"
  by (auto simp: renderField_def Let_def split: if_splits option.splits)

lemma renderFields_no_button:
  "renderFields flds = Inr t \<Longrightarrow> \<not> list_ex is_button t"
proof (induction flds arbitrary: t)
  case Nil
  then show ?case by simp
next
  case (Cons fld flds)
  from Cons.prems obtain t1 t2 where
    "renderField fld = Inr t1" "renderFields flds = Inr t2" "t = t1 @ t2"
    by (auto split: sum.splits)
  with Cons.IH renderField_no_button show ?case by (simp add: list_ex_append)
qed

lemma maybeRenderButton_button:
  "list_ex is_button (maybeRenderButton c) \<longleftrightarrow> \<not> c_isEventControl c \<and> c_handler c \<noteq> None"
  by (auto simp: maybeRenderButton_def split: option.splits)

text \<open>
  C10. The render output of a control contains a submit button if and only if the
  control is not an event control and a handler is bound: this holds of what
  \<open>maybeRenderButton\<close> returns and of every output of \<open>render\<close>. In particular a
  control constructed without a handler renders no button (and no button row at all),
  event control or not. The button is the \<^verbatim>\<open>button\<close> element of the template; a field
  never renders one (a field of type \<^verbatim>\<open>submit\<close> or \<^verbatim>\<open>button\<close> renders an input).
\<close>

theorem button_rendered_iff:
  "(list_ex is_button (maybeRenderButton c) \<longleftrightarrow> \<not> c_isEventControl c \<and> c_handler c \<noteq> None)
   \<and> (\<forall>root. render c = Inr root \<longrightarrow>
         (list_ex is_button root \<longleftrightarrow> \<not> c_isEventControl c \<and> c_handler c \<noteq> None))
   \<and> (\<forall>params. constructor params = Inr c \<and> p_handler params = None
         \<longrightarrow> maybeRenderButton c = [])"
proof (intro conjI allI impI)
  show "list_ex is_button (maybeRenderButton c) \<longleftrightarrow> \<not> c_isEventControl c \<and> c_handler c \<noteq> None"
    by (rule maybeRenderButton_button)
next
  fix root
  assume "render c = Inr root"
  then obtain ft where ft: "renderFields (c_fields c) = Inr ft" "root = ft @ maybeRenderButton c"
    by (auto simp: render_def split: sum.splits)
  from renderFields_no_button [OF ft(1)] ft(2)
  show "list_ex is_button root \<longleftrightarrow> \<not> c_isEventControl c \<and> c_handler c \<noteq> None"
    by (simp add: list_ex_append maybeRenderButton_button)
next
  fix params
  assume "constructor params = Inr c \<and> p_handler params = None"
  then have "c_handler c = None"
    by (auto simp: constructor_def split: sum.splits)
  then show "maybeRenderButton c = []"
    by (simp add: maybeRenderButton_def)
qed

theorem button_rendered_iff_witness:
  "render update_control =
     Inr [Label None ''Update ServiceWorker'', Button ''button'' ''Update'' []]
   \<and> list_ex is_button [Label None ''Update ServiceWorker'', Button ''button'' ''Update'' []]
   \<and> constructor properties_params = Inr properties_control
   \<and> maybeRenderButton properties_control = []"
proof -
  have r: "render update_control =
     Inr [Label None ''Update ServiceWorker'', Button ''button'' ''Update'' []]"
    by (simp add: render_def maybeRenderButton_def update_control_def)
  have p: "p_handler properties_params = None"
    by (simp add: properties_params_def)
  have e: "\<not> c_isEventControl update_control \<and> c_handler update_control \<noteq> None"
    by (simp add: update_control_def)
  from button_rendered_iff [of update_control] r e
  have 1: "list_ex is_button [Label None ''Update ServiceWorker'', Button ''button'' ''Update'' []]"
    by blast
  from button_rendered_iff [of properties_control] constructor_properties p
  have 2: "maybeRenderButton properties_control = []"
    by blast
  from r 1 2 constructor_properties show ?thesis by simp
qed

section \<open>Reading and writing fields\<close>

lemma plain_ident_enabled: "plain_ident ''enabled''"
  by (simp add: plain_ident_def)

lemma rendered_enabled: "rendered enabled_control enabled_root"
  by (simp add: rendered_def render_def renderField_def enabled_control_def enabled_field_def
      id_field_def enabled_root_def field_dom_id_def attr_def maybeRenderButton_def)

lemma rendered_override: "rendered override_control override_root"
  by (simp add: rendered_def render_def renderField_def override_control_def override_field_def
      override_root_def field_dom_id_def attr_def maybeRenderButton_def)

text \<open>
  C6. The claim: on every rendered control with a checkbox field named \<open>n\<close>,
  \<open>GetFieldValue n\<close> after \<open>UpdateFieldValue n\<close> with \<^verbatim>\<open>true\<close> returns \<^verbatim>\<open>true\<close> (and
  likewise for \<^verbatim>\<open>false\<close>). Both methods look the element up by its id, and the id of a
  field is its \<^verbatim>\<open>id\<close> property when it has one, not its name: for the checkbox
  named \<^verbatim>\<open>enabled\<close> with the id \<^verbatim>\<open>enabled_chk\<close> the lookup of \<^verbatim>\<open>enabled\<close> finds
  nothing, and the write and the read both raise a TypeError, while the same calls
  with the id succeed.
\<close>

theorem checkbox_by_name_counterexample:
  "rendered override_control override_root
   \<and> render override_control = Inr override_root
   \<and> c_fields override_control = [override_field]
   \<and> fld_name override_field = Some ''enabled''
   \<and> fld_type override_field = ''checkbox''
   \<and> plain_ident ''enabled''
   \<and> UpdateFieldValue override_root ''enabled'' (JBool True) = Inl TypeError
   \<and> GetFieldValue override_root ''enabled'' = Inl TypeError
   \<and> UpdateFieldValue override_root ''enabled_chk'' (JBool True)
       = Inr [Label (Some ''enabled'') ''enabled'', Input ''enabled_chk'' ''checkbox'' [] True]
   \<and> GetFieldValue [Label (Some ''enabled'') ''enabled'', Input ''enabled_chk'' ''checkbox'' [] True]
         ''enabled_chk'' = Inr (JBool True)"
  using rendered_override plain_ident_enabled
  by (simp add: render_def renderField_def override_control_def override_field_def
      override_root_def field_dom_id_def attr_def maybeRenderButton_def
      UpdateFieldValue_def GetFieldValue_def input_type_checkbox)

text \<open>
  C6, as amended. For every rendered control with a checkbox field that \<open>n\<close> addresses
  by its element id (\<open>n\<close> is an identifier, and the first field whose element id, the
  \<^verbatim>\<open>id\<close> property or else the name, is \<open>n\<close> is of type \<^verbatim>\<open>checkbox\<close>),
  \<open>UpdateFieldValue\<close> with \<^verbatim>\<open>true\<close> or \<^verbatim>\<open>false\<close> succeeds, and \<open>GetFieldValue\<close>
  afterwards returns that boolean. The content stays a rendered state of the control,
  so the statement holds again after each write.
\<close>

theorem checkbox_write_then_read:
  assumes "rendered c root"
    and "plain_ident n"
    and "find (\<lambda>f. field_dom_id f = n) (c_fields c) = Some f"
    and "fld_type f = ''checkbox''"
  shows "\<exists>root'. UpdateFieldValue root n (JBool b) = Inr root'
           \<and> GetFieldValue root' n = Inr (JBool b) \<and> rendered c root'"
proof -
  from rendered_lookup [OF assms(1) assms(3)] obtain k lbl w where
    k: "querySelector root n = Some k" "k < length root"
       "renderField f = Inr [lbl, w]" "shape (root ! k) = shape w"
    by blast
  from k(3) assms(4) have w: "w = Input (field_dom_id f) ''checkbox'' [] (fld_checked f)"
    by (simp add: renderField_def Let_def)
  with k(4) obtain v ch where el: "root ! k = Input (field_dom_id f) ''checkbox'' v ch"
    using shape_Input by force
  let ?root' = "root[k := Input (field_dom_id f) ''checkbox'' v b]"
  have upd: "UpdateFieldValue root n (JBool b) = Inr ?root'"
    using k(1) el by (simp add: UpdateFieldValue_def input_type_checkbox)
  have "map node_id ?root' = map node_id root"
    using k(2) el by (simp add: map_update list_update_same_conv)
  then have q': "querySelector ?root' n = Some k"
    using k(1) querySelector_ids by metis
  have get: "GetFieldValue ?root' n = Inr (JBool b)"
    using q' k(2) by (simp add: GetFieldValue_def input_type_checkbox)
  have "rendered c ?root'"
    using assms(1) k(2) el by (intro rendered_update) simp_all
  with upd get show ?thesis by blast
qed

theorem checkbox_write_then_read_witness:
  "rendered enabled_control enabled_root \<and> plain_ident ''enabled''
   \<and> (\<exists>root'. UpdateFieldValue enabled_root ''enabled'' (JBool True) = Inr root'
         \<and> GetFieldValue root' ''enabled'' = Inr (JBool True) \<and> rendered enabled_control root')
   \<and> GetFieldValue enabled_root ''enabled'' = Inr (JBool False)"
proof -
  have f: "find (\<lambda>f. field_dom_id f = ''enabled'') (c_fields enabled_control) = Some enabled_field"
    by (simp add: enabled_control_def enabled_field_def id_field_def field_dom_id_def attr_def)
  have t: "fld_type enabled_field = ''checkbox''"
    by (simp add: enabled_field_def)
  have g: "GetFieldValue enabled_root ''enabled'' = Inr (JBool False)"
    by (simp add: GetFieldValue_def enabled_root_def input_type_checkbox)
  from checkbox_write_then_read [OF rendered_enabled plain_ident_enabled f t, of True]
  show ?thesis using rendered_enabled plain_ident_enabled g by blast
qed

text \<open>
  C3. The claim: on a rendered control with a select field that has \<^verbatim>\<open>multiple\<close> set,
  \<open>GetFieldValue\<close> returns exactly the options that are selected in the widget, not all
  the available ones. The code returns \<^verbatim>\<open>field.options\<close>, the collection of all options
  of the select, each with its \<^verbatim>\<open>selected\<close> flag: with \<^verbatim>\<open>page\<close> selected out of
  \<^verbatim>\<open>all\<close> and \<^verbatim>\<open>page\<close> the result holds both.
\<close>

theorem multiple_select_read_counterexample:
  "rendered contexts_control contexts_root
   \<and> contexts_root ! 1 = Select ''contexts'' True [(''all'', False), (''page'', True)]
   \<and> selectedOptions [(''all'', False), (''page'', True)] = [(''page'', True)]
   \<and> GetFieldValue contexts_root ''contexts'' = Inr (JOptions [(''all'', False), (''page'', True)])
   \<and> GetFieldValue contexts_root ''contexts''
       \<noteq> Inr (JOptions (selectedOptions [(''all'', False), (''page'', True)]))"
  using rendered_contexts
  by (simp add: GetFieldValue_def contexts_root_def selectedOptions_def)

text \<open>
  C3, as amended. For every rendered control with a select field that \<open>n\<close> addresses and
  that has \<^verbatim>\<open>multiple\<close> set, \<open>GetFieldValue\<close> returns the whole options collection of
  the widget: every available option of the descriptor, in order, each with its current
  \<^verbatim>\<open>selected\<close> flag (the selected ones are those a caller finds by that flag).
\<close>

theorem multiple_select_reads_all_options:
  assumes "rendered c root"
    and "plain_ident n"
    and "find (\<lambda>f. field_dom_id f = n) (c_fields c) = Some f"
    and "fld_type f = ''select''"
    and "fld_multiple f"
    and "fld_options f = Some available"
  shows "\<exists>k opts. querySelector root n = Some k \<and> root ! k = Select n True opts
           \<and> map fst opts = available
           \<and> GetFieldValue root n = Inr (JOptions opts)"
proof -
  from rendered_lookup [OF assms(1) assms(3)] obtain k lbl w where
    k: "querySelector root n = Some k" "k < length root"
       "renderField f = Inr [lbl, w]" "shape (root ! k) = shape w"
    by blast
  from assms(3) have idn: "field_dom_id f = n"
    by (auto dest: find_Some_iff [THEN iffD1])
  have w: "w = Select n True (initial_options True available)"
    using k(3) assms(4,5,6) idn by (simp add: renderField_def Let_def)
  have io: "map fst (initial_options True available) = available"
    by (cases available) (simp_all add: comp_def)
  from k(4) w obtain opts where
    el: "root ! k = Select n True opts"
        "map fst opts = map fst (map (\<lambda>(v, b). (v, False)) (initial_options True available))"
    using shape_Select [of "root ! k" n True "map (\<lambda>(v, b). (v, False)) (initial_options True available)"]
    by auto
  have "map fst (map (\<lambda>(v, b). (v, False)) (initial_options True available)) = available"
    using io by (simp add: comp_def case_prod_beta)
  with el have av: "map fst opts = available" by simp
  have "GetFieldValue root n = Inr (JOptions opts)"
    using k(1) el(1) by (simp add: GetFieldValue_def)
  with k(1) el(1) av show ?thesis by blast
qed

theorem multiple_select_reads_all_options_witness:
  "rendered contexts_control contexts_root \<and> plain_ident ''contexts''
   \<and> (\<exists>k opts. querySelector contexts_root ''contexts'' = Some k
         \<and> contexts_root ! k = Select ''contexts'' True opts
         \<and> map fst opts = [''all'', ''page'']
         \<and> GetFieldValue contexts_root ''contexts'' = Inr (JOptions opts))"
proof -
  have f: "find (\<lambda>f. field_dom_id f = ''contexts'') (c_fields contexts_control) = Some contexts_field"
    by (simp add: contexts_control_def contexts_field_def field_dom_id_def attr_def)
  have t: "fld_type contexts_field = ''select''" "fld_multiple contexts_field"
    "fld_options contexts_field = Some [''all'', ''page'']"
    by (simp_all add: contexts_field_def)
  from multiple_select_reads_all_options [OF rendered_contexts plain_ident_contexts f t]
  show ?thesis using rendered_contexts plain_ident_contexts by blast
qed

text \<open>
  C7. The claim: on a rendered control with a select field \<open>n\<close>, \<open>UpdateFieldValue\<close> is
  a no-op for every value: options and selection stay as they are. The switch has a
  case \<^verbatim>\<open>select\<close> that returns at once, but the type of a select element is
  \<^verbatim>\<open>select-one\<close> or \<^verbatim>\<open>select-multiple\<close>, so the default case assigns
  \<^verbatim>\<open>field.value\<close>: on the freshly rendered \<^verbatim>\<open>type\<close> select of the application, writing
  \<^verbatim>\<open>radio\<close> moves the selection from \<^verbatim>\<open>normal\<close> to \<^verbatim>\<open>radio\<close>.
\<close>

theorem select_update_changes_selection:
  "render type_control =
     Inr [Label (Some ''type'') ''type'',
          Select ''type'' False
            [(''normal'', True), (''checkbox'', False), (''radio'', False), (''separator'', False)]]
   \<and> UpdateFieldValue
        [Label (Some ''type'') ''type'',
         Select ''type'' False
           [(''normal'', True), (''checkbox'', False), (''radio'', False), (''separator'', False)]]
        ''type'' (JStr ''radio'') =
     Inr [Label (Some ''type'') ''type'',
          Select ''type'' False
            [(''normal'', False), (''checkbox'', False), (''radio'', True), (''separator'', False)]]"
  by (simp add: render_def renderField_def type_control_def type_field_def field_dom_id_def
      attr_def maybeRenderButton_def UpdateFieldValue_def)

section \<open>Groups: depth\<close>

lemma is_group_SetGroupDepth: "is_group (SetGroupDepth d c h) r = is_group h r"
  by (auto simp: is_group_def SetGroupDepth_def split: option.splits element.splits)

lemma SetGroupDepth_apply:
  "SetGroupDepth d c h r = (if r = c then set_depth d (h r) else h r)"
  by (auto simp: SetGroupDepth_def set_depth_def split: option.splits element.splits)

lemma set_depth_idem: "set_depth d (set_depth d x) = set_depth d x"
  by (auto simp: set_depth_def split: option.splits element.splits)

lemma render_controls_apply:
  assumes "this \<notin> set cs"
  shows "render_controls this cs h r =
           (if r \<in> set cs \<and> is_group h r then set_depth (depth_of h this + 1) (h r) else h r)"
  using assms
proof (induction cs arbitrary: h)
  case Nil
  then show ?case by simp
next
  case (Cons c cs)
  then have ne: "this \<noteq> c" and notin: "this \<notin> set cs" by auto
  show ?case
  proof (cases "is_group h c")
    case False
    with Cons.IH [OF notin, of h] show ?thesis by auto
  next
    case True
    let ?d = "depth_of h this + 1"
    let ?h1 = "SetGroupDepth ?d c h"
    have d1: "depth_of ?h1 this = depth_of h this"
      using ne by (simp add: depth_of_def SetGroupDepth_apply)
    have "render_controls this (c # cs) h r = render_controls this cs ?h1 r"
      using True by simp
    also have "\<dots> = (if r \<in> set cs \<and> is_group ?h1 r then set_depth ?d (?h1 r) else ?h1 r)"
      using Cons.IH [OF notin, of ?h1] d1 by simp
    also have "\<dots> = (if r \<in> set (c # cs) \<and> is_group h r then set_depth ?d (h r) else h r)"
      using True by (auto simp: is_group_SetGroupDepth SetGroupDepth_apply set_depth_idem)
    finally show ?thesis .
  qed
qed

text \<open>
  C4. For every store and every group \<open>this\<close> of depth \<open>d\<close> that is not a child of
  itself (as in every tree), a render pass of \<open>this\<close> leaves \<open>this\<close> as it is and gives
  each direct child group the depth \<open>d + 1\<close>, whatever depth the child had before;
  nothing else of the child and nothing else in the store changes. The store is arbitrary, so this holds after any
  sequence of \<open>AddControl\<close> calls, also when a group has been added under another parent.
\<close>

theorem render_sets_child_depth:
  assumes "h this = Some (GroupObj g)"
    and "this \<notin> set (g_controls g)"
  shows "\<exists>t h'. group_render this h = Some (t, h')
           \<and> t_depth_class t = g_depth g \<and> t_controls t = g_controls g
           \<and> h' this = Some (GroupObj g)
           \<and> (\<forall>c \<in> set (g_controls g). \<forall>gc. h c = Some (GroupObj gc)
                 \<longrightarrow> h' c = Some (GroupObj (gc\<lparr>g_depth := g_depth g + 1\<rparr>)))
           \<and> (\<forall>r. r \<notin> set (g_controls g) \<or> \<not> is_group h r \<longrightarrow> h' r = h r)"
proof -
  let ?h' = "render_controls this (g_controls g) h"
  let ?t = "\<lparr> t_depth_class = g_depth g,
              t_indicator = (if g_expanded g then ''[-]'' else ''[+]''),
              t_heading = attr (g_heading g),
              t_collapsed = (\<not> g_expanded g),
              t_controls = g_controls g \<rparr>"
  have d: "depth_of h this = g_depth g"
    using assms(1) by (simp add: depth_of_def)
  have app: "\<And>r. ?h' r = (if r \<in> set (g_controls g) \<and> is_group h r
                            then set_depth (g_depth g + 1) (h r) else h r)"
    using render_controls_apply [OF assms(2), of h] d by simp
  have 1: "?h' this = Some (GroupObj g)"
    using app assms by simp
  have 2: "\<forall>c \<in> set (g_controls g). \<forall>gc. h c = Some (GroupObj gc)
             \<longrightarrow> ?h' c = Some (GroupObj (gc\<lparr>g_depth := g_depth g + 1\<rparr>))"
    using app by (simp add: is_group_def set_depth_def)
  have 3: "\<forall>r. r \<notin> set (g_controls g) \<or> \<not> is_group h r \<longrightarrow> ?h' r = h r"
    using app by auto
  have "group_render this h = Some (?t, ?h')"
    using assms(1) by (simp add: group_render_def)
  moreover have "t_depth_class ?t = g_depth g \<and> t_controls ?t = g_controls g" by simp
  ultimately show ?thesis using 1 2 3 by blast
qed

theorem render_sets_child_depth_witness:
  "(\<exists>g. AddControl 2 5 example_store 5 = Some (GroupObj g) \<and> 5 \<notin> set (g_controls g) \<and> g_depth g = 3)
   \<and> AddControl 2 5 example_store 2 = Some (GroupObj group_B)
   \<and> g_depth group_B = 0
   \<and> (\<exists>t h'. group_render 5 (AddControl 2 5 example_store) = Some (t, h')
         \<and> h' 2 = Some (GroupObj (group_B\<lparr>g_depth := 4\<rparr>)) \<and> h' 1 = example_store 1)"
proof -
  let ?h = "AddControl 2 5 example_store"
  let ?g = "group_P\<lparr>g_controls := [2]\<rparr>"
  have h5: "?h 5 = Some (GroupObj ?g)"
    by (simp add: AddControl_def example_store_def group_P_def)
  have n5: "5 \<notin> set (g_controls ?g)" by simp
  have d: "g_depth ?g = 3" by (simp add: group_P_def)
  have g2: "?h 2 = Some (GroupObj group_B)" "g_depth group_B = 0"
    by (simp_all add: AddControl_def example_store_def group_P_def group_B_def)
  have h1: "?h 1 = example_store 1"
    by (simp add: AddControl_def example_store_def)
  have c: "2 \<in> set (g_controls ?g)" "1 \<notin> set (g_controls ?g)" by simp_all
  from render_sets_child_depth [where h = "?h" and this = 5 and g = "?g", OF h5 n5]
  obtain t h' where r: "group_render 5 ?h = Some (t, h')"
    "\<forall>c \<in> set (g_controls ?g). \<forall>gc. ?h c = Some (GroupObj gc)
        \<longrightarrow> h' c = Some (GroupObj (gc\<lparr>g_depth := g_depth ?g + 1\<rparr>))"
    "\<forall>r. r \<notin> set (g_controls ?g) \<or> \<not> is_group ?h r \<longrightarrow> h' r = ?h r"
    by blast
  from r(2) c(1) g2(1) have "h' 2 = Some (GroupObj (group_B\<lparr>g_depth := g_depth ?g + 1\<rparr>))"
    by blast
  with d have 2: "h' 2 = Some (GroupObj (group_B\<lparr>g_depth := 4\<rparr>))" by simp
  from r(3) c(2) h1 have 1: "h' 1 = example_store 1" by metis
  from h5 n5 d g2 r(1) 1 2 show ?thesis by blast
qed

section \<open>Groups: expanding and collapsing\<close>

lemma expand_obj_idem: "expand_obj b (expand_obj b x) = expand_obj b x"
  by (auto simp: expand_obj_def split: option.splits element.splits)

lemma expand_obj_group:
  "expand_obj b (Some (GroupObj g)) = Some (GroupObj (g\<lparr>g_expanded := b\<rparr>))"
  by (simp add: expand_obj_def)

lemma expand_obj_control: "expand_obj b (Some (ControlObj c)) = Some (ControlObj c)"
  by (simp add: expand_obj_def)

lemma expand_in_group_iff:
  "(\<exists>g'. expand_in b D h r = Some (GroupObj g')) \<longleftrightarrow> (\<exists>g. h r = Some (GroupObj g))"
  by (auto simp: expand_in_def expand_obj_def split: option.splits element.splits)

lemma is_group_expand_in: "is_group (expand_in b D h) r = is_group h r"
  by (auto simp: is_group_def expand_in_def expand_obj_def split: option.splits element.splits)

lemma expand_in_controls:
  "expand_in b D h r = Some (GroupObj g') \<Longrightarrow> \<exists>g. h r = Some (GroupObj g) \<and> g_controls g = g_controls g'"
  by (auto simp: expand_in_def expand_obj_def split: option.splits element.splits if_splits)

lemma expand_in_controls':
  "h r = Some (GroupObj g) \<Longrightarrow> \<exists>g'. expand_in b D h r = Some (GroupObj g') \<and> g_controls g' = g_controls g"
  by (auto simp: expand_in_def expand_obj_def)

lemma descendants_mono:
  assumes "\<And>r g. h r = Some (GroupObj g) \<Longrightarrow> \<exists>g'. h' r = Some (GroupObj g') \<and> g_controls g' = g_controls g"
    and "x \<in> descendants h root"
  shows "x \<in> descendants h' root"
  using assms(2)
proof (induction rule: descendants.induct)
  case self
  show ?case by (rule descendants.self)
next
  case (child r g c)
  from assms(1) [OF child.hyps(2)] obtain g' where
    "h' r = Some (GroupObj g')" "g_controls g' = g_controls g" by blast
  with child.IH child.hyps(3) show ?case
    by (auto intro: descendants.child)
qed

lemma descendants_expand_in: "descendants (expand_in b D h) root = descendants h root"
proof (intro set_eqI iffI)
  fix x assume "x \<in> descendants (expand_in b D h) root"
  then show "x \<in> descendants h root"
    by (rule descendants_mono [rotated]) (metis expand_in_controls)
next
  fix x assume "x \<in> descendants h root"
  then show "x \<in> descendants (expand_in b D h) root"
    by (rule descendants_mono [rotated]) (rule expand_in_controls')
qed

lemma ranked_expand_in: "ranked rank h \<Longrightarrow> ranked rank (expand_in b D h)"
  unfolding ranked_def is_group_expand_in
  by (metis expand_in_controls)

lemma expand_in_union: "expand_in b D2 (expand_in b D1 h) = expand_in b (D1 \<union> D2) h"
  by (rule ext) (simp add: expand_in_def expand_obj_idem)

lemma expand_in_empty: "expand_in b {} h = h"
  by (rule ext) (simp add: expand_in_def)

lemma assign_expanded_expand_in: "assign_expanded b this h = expand_in b {this} h"
  by (rule ext) (auto simp: assign_expanded_def expand_in_def expand_obj_def split: option.splits element.splits)

lemma descendants_leaf:
  assumes "\<not> is_group h r"
  shows "descendants h r = {r}"
proof (intro set_eqI iffI)
  fix x assume "x \<in> descendants h r"
  then show "x \<in> {r}"
    using assms by (induction rule: descendants.induct) (auto simp: is_group_def)
next
  fix x assume "x \<in> {r}"
  then show "x \<in> descendants h r" by (auto intro: descendants.self)
qed

lemma expand_in_leaf:
  assumes "\<not> is_group h r"
  shows "expand_in b (insert r D) h = expand_in b D h"
  using assms
  by (intro ext) (auto simp: expand_in_def expand_obj_def is_group_def split: option.splits element.splits)

lemma descendants_trans:
  assumes "x \<in> descendants h c" "c \<in> descendants h root"
  shows "x \<in> descendants h root"
  using assms
  by (induction rule: descendants.induct) (auto intro: descendants.child)

lemma descendants_group:
  assumes "h this = Some (GroupObj g)"
  shows "descendants h this = insert this (\<Union>c \<in> set (g_controls g). descendants h c)"
proof (intro set_eqI iffI)
  fix x assume "x \<in> descendants h this"
  then show "x \<in> insert this (\<Union>c \<in> set (g_controls g). descendants h c)"
  proof (induction rule: descendants.induct)
    case self
    show ?case by simp
  next
    case (child r g' c)
    from child.IH show ?case
    proof
      assume "r = this"
      with child.hyps(2,3) assms have "c \<in> set (g_controls g)" by simp
      then show ?thesis by (auto intro: descendants.self)
    next
      assume "r \<in> (\<Union>c \<in> set (g_controls g). descendants h c)"
      then obtain c0 where "c0 \<in> set (g_controls g)" "r \<in> descendants h c0" by blast
      with child.hyps(2,3) show ?thesis
        by (auto intro: descendants.child)
    qed
  qed
next
  fix x assume "x \<in> insert this (\<Union>c \<in> set (g_controls g). descendants h c)"
  then show "x \<in> descendants h this"
  proof
    assume "x = this"
    then show ?thesis by (simp add: descendants.self)
  next
    assume "x \<in> (\<Union>c \<in> set (g_controls g). descendants h c)"
    then obtain c where c: "c \<in> set (g_controls g)" "x \<in> descendants h c" by blast
    have "c \<in> descendants h this"
      using assms c(1) by (auto intro: descendants.child descendants.self)
    with c(2) show ?thesis by (rule descendants_trans)
  qed
qed

lemma SetExpanded_controls_step:
  assumes P: "\<And>this h. ranked rank h \<Longrightarrow> is_group h this \<Longrightarrow> rank this < n
                \<Longrightarrow> SetExpanded n b this h = Some (expand_in b (descendants h this) h)"
  shows "ranked rank h \<Longrightarrow> (\<forall>c \<in> set cs. is_group h c \<longrightarrow> rank c < n)
           \<Longrightarrow> SetExpanded_controls n b cs h = Some (expand_in b (\<Union>c \<in> set cs. descendants h c) h)"
proof (induction cs arbitrary: h)
  case Nil
  show ?case by (simp add: expand_in_empty)
next
  case (Cons c cs)
  show ?case
  proof (cases "is_group h c")
    case False
    from Cons.prems have "\<forall>c \<in> set cs. is_group h c \<longrightarrow> rank c < n" by simp
    from Cons.IH [OF Cons.prems(1) this]
    have "SetExpanded_controls n b cs h = Some (expand_in b (\<Union>c \<in> set cs. descendants h c) h)" .
    moreover have "expand_in b (\<Union>c \<in> set (c # cs). descendants h c) h
                     = expand_in b (\<Union>c \<in> set cs. descendants h c) h"
      using False by (simp add: descendants_leaf expand_in_leaf)
    ultimately show ?thesis using False by simp
  next
    case True
    let ?h1 = "expand_in b (descendants h c) h"
    from Cons.prems True have "rank c < n" by simp
    from P [OF Cons.prems(1) True this] have s1: "SetExpanded n b c h = Some ?h1" .
    have r1: "ranked rank ?h1" using Cons.prems(1) by (rule ranked_expand_in)
    have "\<forall>c \<in> set cs. is_group ?h1 c \<longrightarrow> rank c < n"
      using Cons.prems(2) by (simp add: is_group_expand_in)
    from Cons.IH [OF r1 this]
    have "SetExpanded_controls n b cs ?h1 = Some (expand_in b (\<Union>c \<in> set cs. descendants ?h1 c) ?h1)" .
    also have "expand_in b (\<Union>c \<in> set cs. descendants ?h1 c) ?h1
                 = expand_in b (\<Union>c \<in> set (c # cs). descendants h c) h"
      by (simp add: descendants_expand_in expand_in_union)
    finally show ?thesis using True s1 by simp
  qed
qed

lemma SetExpanded_ranked:
  "ranked rank h \<Longrightarrow> is_group h this \<Longrightarrow> rank this < n
     \<Longrightarrow> SetExpanded n b this h = Some (expand_in b (descendants h this) h)"
proof (induction n arbitrary: this h)
  case 0
  then show ?case by simp
next
  case (Suc n)
  from Suc.prems(2) obtain g where g: "h this = Some (GroupObj g)"
    by (auto simp: is_group_def split: option.splits element.splits)
  have "\<forall>c \<in> set (g_controls g). is_group h c \<longrightarrow> rank c < n"
  proof (intro ballI impI)
    fix c assume "c \<in> set (g_controls g)" "is_group h c"
    with Suc.prems(1) g have "rank c < rank this"
      unfolding ranked_def by blast
    with Suc.prems(3) show "rank c < n" by simp
  qed
  from SetExpanded_controls_step [where rank = rank and n = n and b = b, OF Suc.IH Suc.prems(1) this]
  have cs: "SetExpanded_controls n b (g_controls g) h
              = Some (expand_in b (\<Union>c \<in> set (g_controls g). descendants h c) h)"
    by simp
  have "SetExpanded (Suc n) b this h
          = Some (assign_expanded b this (expand_in b (\<Union>c \<in> set (g_controls g). descendants h c) h))"
    using g cs by simp
  also have "assign_expanded b this (expand_in b (\<Union>c \<in> set (g_controls g). descendants h c) h)
               = expand_in b (descendants h this) h"
    using descendants_group [of h this g] g
    by (simp add: assign_expanded_expand_in expand_in_union Un_commute)
  finally show ?case .
qed

text \<open>
  The bound is needed: on a store where a group is its own child the nested calls
  never return, whatever the bound.
\<close>

lemma SetExpanded_keeps_controls:
  "SetExpanded n b this h = Some h' \<Longrightarrow> h r = Some (GroupObj g)
     \<Longrightarrow> \<exists>g'. h' r = Some (GroupObj g') \<and> g_controls g' = g_controls g"
  and SetExpanded_controls_keeps_controls:
  "SetExpanded_controls n b cs h = Some h' \<Longrightarrow> h r = Some (GroupObj g)
     \<Longrightarrow> \<exists>g'. h' r = Some (GroupObj g') \<and> g_controls g' = g_controls g"
proof (induction n b this h and n b cs h arbitrary: h' r g and h' r g
       rule: SetExpanded_SetExpanded_controls.induct)
  case (1 expanded this h)
  then show ?case by simp
next
  case (2 fuel expanded this h)
  show ?case
  proof (cases "h this")
    case None
    with "2.prems" show ?thesis by simp
  next
    case (Some el)
    show ?thesis
    proof (cases el)
      case (ControlObj c)
      with Some "2.prems" show ?thesis by simp
    next
      case (GroupObj gt)
      with Some "2.prems"(1) obtain h1 where
        h1: "SetExpanded_controls fuel expanded (g_controls gt) h = Some h1"
            "h' = assign_expanded expanded this h1"
        by (auto split: option.splits)
      from "2.IH" [OF Some GroupObj h1(1) "2.prems"(2)] obtain g1 where
        g1: "h1 r = Some (GroupObj g1)" "g_controls g1 = g_controls g"
        by blast
      with h1(2) show ?thesis
        by (auto simp: assign_expanded_def split: option.splits element.splits)
    qed
  qed
next
  case (3 fuel expanded h)
  then show ?case by simp
next
  case (4 fuel expanded control controls h)
  show ?case
  proof (cases "is_group h control")
    case False
    with "4.prems"(1) have "SetExpanded_controls fuel expanded controls h = Some h'" by simp
    from "4.IH"(3) [OF False this "4.prems"(2)] show ?thesis .
  next
    case True
    with "4.prems"(1) obtain h1 where
      h1: "SetExpanded fuel expanded control h = Some h1"
          "SetExpanded_controls fuel expanded controls h1 = Some h'"
      by (auto split: option.splits)
    from "4.IH"(1) [OF True h1(1) "4.prems"(2)] obtain g1 where
      g1: "h1 r = Some (GroupObj g1)" "g_controls g1 = g_controls g"
      by blast
    from "4.IH"(2) [OF True h1(1) h1(2) g1(1)] obtain g' where
      "h' r = Some (GroupObj g')" "g_controls g' = g_controls g1"
      by blast
    with g1(2) show ?thesis by simp
  qed
qed

lemma SetExpanded_controls_self_child:
  assumes IH: "\<And>h g. h this = Some (GroupObj g) \<Longrightarrow> this \<in> set (g_controls g)
                 \<Longrightarrow> SetExpanded n b this h = None"
  shows "h this = Some (GroupObj g) \<Longrightarrow> this \<in> set (g_controls g) \<Longrightarrow> this \<in> set cs
           \<Longrightarrow> SetExpanded_controls n b cs h = None"
proof (induction cs arbitrary: h g)
  case Nil
  then show ?case by simp
next
  case (Cons c cs)
  show ?case
  proof (cases "c = this")
    case True
    from Cons.prems(1) have grp: "is_group h this" by (simp add: is_group_def)
    have "SetExpanded n b this h = None"
      using Cons.prems(1,2) by (rule IH)
    with True grp show ?thesis by simp
  next
    case False
    with Cons.prems(3) have mem: "this \<in> set cs" by simp
    show ?thesis
    proof (cases "is_group h c")
      case False
      have "SetExpanded_controls n b cs h = None"
        using Cons.prems(1,2) mem by (rule Cons.IH)
      with False show ?thesis by simp
    next
      case True
      show ?thesis
      proof (cases "SetExpanded n b c h")
        case None
        with True show ?thesis by simp
      next
        case (Some h1)
        from SetExpanded_keeps_controls [OF Some Cons.prems(1)] obtain g1 where
          g1: "h1 this = Some (GroupObj g1)" "g_controls g1 = g_controls g"
          by blast
        from g1(2) Cons.prems(2) have "this \<in> set (g_controls g1)" by simp
        with g1(1) have "SetExpanded_controls n b cs h1 = None"
          using mem by (rule Cons.IH)
        with True Some show ?thesis by simp
      qed
    qed
  qed
qed

lemma SetExpanded_self_child:
  "h this = Some (GroupObj g) \<Longrightarrow> this \<in> set (g_controls g) \<Longrightarrow> SetExpanded n b this h = None"
proof (induction n arbitrary: h g)
  case 0
  show ?case by simp
next
  case (Suc n)
  have "SetExpanded_controls n b (g_controls g) h = None"
  proof (rule SetExpanded_controls_self_child [where this = this and g = g])
    show "\<And>h g. h this = Some (GroupObj g) \<Longrightarrow> this \<in> set (g_controls g)
            \<Longrightarrow> SetExpanded n b this h = None"
      by (rule Suc.IH)
    show "h this = Some (GroupObj g)" by (rule Suc.prems(1))
    show "this \<in> set (g_controls g)" by (rule Suc.prems(2))
    show "this \<in> set (g_controls g)" by (rule Suc.prems(2))
  qed
  with Suc.prems(1) show ?case by simp
qed

lemma ranked_example: "ranked example_rank example_store"
  by (auto simp: ranked_def example_rank_def example_store_def is_group_def
      group_A_def group_B_def group_C_def group_P_def split: if_splits)

lemma descendants_example:
  "0 \<in> descendants example_store 0" "2 \<in> descendants example_store 0"
  "4 \<in> descendants example_store 0"
proof -
  show 0: "0 \<in> descendants example_store 0" by (rule descendants.self)
  have "example_store 0 = Some (GroupObj group_A)" "2 \<in> set (g_controls group_A)"
    by (simp_all add: example_store_def group_A_def)
  with 0 show 2: "2 \<in> descendants example_store 0" by (rule descendants.child)
  have "example_store 2 = Some (GroupObj group_B)" "4 \<in> set (g_controls group_B)"
    by (simp_all add: example_store_def group_B_def)
  with 2 show "4 \<in> descendants example_store 0" by (rule descendants.child)
qed

text \<open>
  C5. For every store that is a forest of finite height, every group \<open>this\<close> in it and
  every boolean \<open>b\<close>, \<open>SetExpanded\<close> returns (any bound above the height of \<open>this\<close>
  suffices) and sets \<^verbatim>\<open>expanded\<close> to \<open>b\<close> on \<open>this\<close> and on every group below it, at
  any depth, changing nothing else of these groups; every plain control (everything
  that is not a group) is left as it is, and so is everything that is not below
  \<open>this\<close>.
\<close>

theorem SetExpanded_all_descendant_groups:
  assumes "ranked rank h"
    and "h this = Some (GroupObj g)"
    and "rank this < fuel"
  shows "\<exists>h'. SetExpanded fuel b this h = Some h'
           \<and> (\<forall>r \<in> descendants h this. \<forall>gr. h r = Some (GroupObj gr)
                 \<longrightarrow> h' r = Some (GroupObj (gr\<lparr>g_expanded := b\<rparr>)))
           \<and> (\<forall>r. \<not> is_group h r \<longrightarrow> h' r = h r)
           \<and> (\<forall>r. r \<notin> descendants h this \<longrightarrow> h' r = h r)"
proof -
  have "is_group h this" using assms(2) by (simp add: is_group_def)
  from SetExpanded_ranked [OF assms(1) this assms(3)]
  have "SetExpanded fuel b this h = Some (expand_in b (descendants h this) h)" .
  then show ?thesis
    by (auto simp: expand_in_def expand_obj_def is_group_def split: option.splits element.splits)
qed

theorem SetExpanded_all_descendant_groups_witness:
  "ranked example_rank example_store
   \<and> example_store 0 = Some (GroupObj group_A)
   \<and> example_rank 0 < 3
   \<and> (\<exists>h'. SetExpanded 3 False 0 example_store = Some h'
         \<and> h' 0 = Some (GroupObj (group_A\<lparr>g_expanded := False\<rparr>))
         \<and> h' 2 = Some (GroupObj (group_B\<lparr>g_expanded := False\<rparr>))
         \<and> h' 4 = Some (GroupObj (group_C\<lparr>g_expanded := False\<rparr>))
         \<and> h' 1 = Some (ControlObj update_control)
         \<and> h' 3 = Some (ControlObj properties_control))"
proof -
  have a: "example_store 0 = Some (GroupObj group_A)"
    "example_store 2 = Some (GroupObj group_B)"
    "example_store 4 = Some (GroupObj group_C)"
    "example_store 1 = Some (ControlObj update_control)"
    "example_store 3 = Some (ControlObj properties_control)"
    by (simp_all add: example_store_def)
  have n: "\<not> is_group example_store 1" "\<not> is_group example_store 3"
    using a(4,5) by (simp_all add: is_group_def)
  have r: "example_rank 0 < 3" by (simp add: example_rank_def)
  from SetExpanded_all_descendant_groups
         [where h = example_store and this = 0 and g = group_A and b = False,
          OF ranked_example a(1) r]
  obtain h' where h': "SetExpanded 3 False 0 example_store = Some h'"
    "\<forall>r \<in> descendants example_store 0. \<forall>gr. example_store r = Some (GroupObj gr)
        \<longrightarrow> h' r = Some (GroupObj (gr\<lparr>g_expanded := False\<rparr>))"
    "\<forall>r. \<not> is_group example_store r \<longrightarrow> h' r = example_store r"
    by blast
  from h'(2) descendants_example a(1,2,3)
  have "h' 0 = Some (GroupObj (group_A\<lparr>g_expanded := False\<rparr>))"
    "h' 2 = Some (GroupObj (group_B\<lparr>g_expanded := False\<rparr>))"
    "h' 4 = Some (GroupObj (group_C\<lparr>g_expanded := False\<rparr>))"
    by blast+
  moreover from h'(3) n a(4,5)
  have "h' 1 = Some (ControlObj update_control)" "h' 3 = Some (ControlObj properties_control)"
    by simp_all
  ultimately show ?thesis using ranked_example a(1) r h'(1) by blast
qed

end
